theory Spec2Isabelle
  imports Main "HOL-Library.Multiset"
begin

section \<open>Strings\<close>

text \<open>
  A Go string is a sequence of bytes, modelled as \<^typ>\<open>string\<close>. The functions of
  package \<open>strings\<close> that the dispatcher calls are modelled on bytes; every cutset,
  prefix and separator the source passes is ASCII, where the byte-wise and the
  rune-wise reading agree.
\<close>

definition dq :: string where
  "dq = [CHR 0x22]"

definition nl :: string where
  "nl = [CHR 0x0A]"

definition tab :: string where
  "tab = [CHR 0x09]"

text \<open>The special whitespace cutset \<open>"\n\r\t"\<close> of the validators.\<close>

definition specialWhitespace :: string where
  "specialWhitespace = [CHR 0x0A, CHR 0x0D, CHR 0x09]"

text \<open>\<open>var whitespaceCharacters = " \n\r\t"\<close>\<close>

definition whitespaceCharacters :: string where
  "whitespaceCharacters = CHR '' '' # specialWhitespace"

definition HasPrefix :: "string \<Rightarrow> string \<Rightarrow> bool" where
  "HasPrefix s p = (length p \<le> length s \<and> take (length p) s = p)"

definition HasSuffix :: "string \<Rightarrow> string \<Rightarrow> bool" where
  "HasSuffix s suf = (length suf \<le> length s \<and> drop (length s - length suf) s = suf)"

definition ContainsAny :: "string \<Rightarrow> string \<Rightarrow> bool" where
  "ContainsAny s chars = list_ex (\<lambda>c. c \<in> set chars) s"

definition TrimLeft :: "string \<Rightarrow> string \<Rightarrow> string" where
  "TrimLeft s cutset = dropWhile (\<lambda>c. c \<in> set cutset) s"

definition TrimRight :: "string \<Rightarrow> string \<Rightarrow> string" where
  "TrimRight s cutset = rev (dropWhile (\<lambda>c. c \<in> set cutset) (rev s))"

definition Trim :: "string \<Rightarrow> string \<Rightarrow> string" where
  "Trim s cutset = TrimRight (TrimLeft s cutset) cutset"

text \<open>
  \<open>strings.Index\<close>: the position of the first occurrence of \<open>substr\<close> in \<open>s\<close>;
  \<open>None\<close> stands for the result \<open>-1\<close>.
\<close>

fun Index :: "string \<Rightarrow> string \<Rightarrow> nat option" where
  "Index [] substr = (if substr = [] then Some 0 else None)"
| "Index (c # cs) substr =
     (if HasPrefix (c # cs) substr then Some 0
      else map_option Suc (Index cs substr))"

text \<open>
  \<open>strings.Split\<close> for the one-byte separator the source passes: a string with
  \<open>n\<close> separators gives \<open>n + 1\<close> pieces, and the empty string gives one empty piece.
\<close>

fun Split :: "string \<Rightarrow> char \<Rightarrow> string list" where
  "Split [] sep = [[]]"
| "Split (c # cs) sep =
     (if c = sep then [] # Split cs sep
      else (c # hd (Split cs sep)) # tl (Split cs sep))"

fun Join :: "string list \<Rightarrow> string \<Rightarrow> string" where
  "Join [] sep = []"
| "Join [x] sep = x"
| "Join (x # y # ys) sep = x @ sep @ Join (y # ys) sep"

text \<open>
  The verb \<open>%-Ns\<close> of \<open>fmt.Sprintf\<close>: the text, followed by spaces up to width \<open>N\<close>.
  The width counts runes; on ASCII text that is the byte length used here.
\<close>

definition padRight :: "nat \<Rightarrow> string \<Rightarrow> string" where
  "padRight n s = s @ replicate (n - length s) (CHR '' '')"

definition quoted :: "string \<Rightarrow> string" where
  "quoted s = dq @ s @ dq"


section \<open>Data model\<close>

record Variable =
  var_Label :: string
  var_Required :: bool
  var_Default :: string

text \<open>\<open>Variable *Variable\<close> of the source is an optional value: \<open>None\<close> is \<open>nil\<close>.\<close>

record Option_cli =
  opt_Label :: string
  opt_Short :: string
  opt_Long :: string
  opt_Variable :: "Variable option"
  opt_HelpMsg :: string

record flagMetadata =
  isset :: bool
  hasVar :: bool
  variable :: string

record Flags =
  mapping :: "string \<rightharpoonup> flagMetadata"

record Argument =
  arg_Label :: string
  arg_Options :: "Option_cli list"
  arg_ExecFunc :: string
  arg_executable :: "Flags \<Rightarrow> string"
  arg_HelpMsg :: string
  arg_help :: "Flags \<Rightarrow> string"

record Command =
  cmd_Label :: string
  cmd_Arguments :: "Argument list"
  cmd_help :: "Flags \<Rightarrow> string"

record Config =
  cfg_Prompt :: string
  cfg_Commands :: "Command list"
  cfg_InitFunc :: string
  cfg_init :: "Flags \<Rightarrow> string"
  cfg_ExitFunc :: string
  cfg_exit :: "Flags \<Rightarrow> string"
  cfg_help :: "Flags \<Rightarrow> string"
  cfg_ExitCmd :: string
  cfg_HelpCmd :: string

text \<open>Of the fields of \<open>App\<close>, the dispatcher reads the config and writes \<open>active\<close>.\<close>

record App =
  config :: Config
  active :: bool

text \<open>\<open>Flags{}\<close>: the mapping is the nil map, which has no key.\<close>

definition emptyFlags :: Flags where
  "emptyFlags = \<lparr>mapping = Map.empty\<rparr>"

definition Exists :: "Flags \<Rightarrow> string \<Rightarrow> bool" where
  "Exists flags label = (case mapping flags label of None \<Rightarrow> False | Some _ \<Rightarrow> True)"

definition IsSet :: "Flags \<Rightarrow> string \<Rightarrow> bool" where
  "IsSet flags label = (case mapping flags label of None \<Rightarrow> False | Some meta \<Rightarrow> isset meta)"

definition GetVar :: "Flags \<Rightarrow> string \<Rightarrow> string \<times> bool" where
  "GetVar flags label =
     (case mapping flags label of
        None \<Rightarrow> ([], False)
      | Some meta \<Rightarrow>
          if \<not> isset meta \<or> \<not> hasVar meta then ([], False)
          else (variable meta, True))"


section \<open>Errors\<close>

text \<open>
  Every \<open>fmt.Errorf\<close> of the source is one constructor; \<open>errorText\<close> is the message
  the error carries.
\<close>

datatype error =
    EmptyCommandLabel
  | InvalidCommandLabel string
  | CommandNeedsArgument string
  | InCommand string error
  | MultipleArgumentLabel string string
  | InvalidArgumentLabel string
  | ArgumentSpacesAtStart string
  | ArgumentSpacesAtEnd string
  | InArgument string error
  | MultipleOptionLabel string string
  | MultipleOptionShort string string
  | MultipleOptionLong string string
  | EmptyOptionLabel
  | InvalidOptionLabel string
  | NoShortNoLong
  | ShortWithoutDash string
  | ShortNotTwoCharacters string
  | ShortWhitespace string
  | ShortInvalidCharacters string
  | LongWithoutDashes string
  | LongTooShort string
  | LongWhitespace string
  | LongInvalidCharacters string
  | InOption string error
  | EmptyVariableLabel
  | InvalidVariableLabel string
  | MissingExitCmd
  | MissingHelpCmd
  | MissingCommands
  | CommandIsExitCmd string
  | CommandIsHelpCmd string
  | UnableToFindCommand string
  | NoValidArgument string
  | MissingVariable string string
  | RequiredOptionMissingVariable string string
  | InvalidText string


fun errorText :: "error \<Rightarrow> string" where
  "errorText EmptyCommandLabel = ''empty command label detected''"
| "errorText (InvalidCommandLabel l) =
     ''invalid command label '' @ quoted l @ '', invalid whitespace characters detected''"
| "errorText (CommandNeedsArgument l) =
     ''command '' @ quoted l @ '' requires at least one argument''"
| "errorText (InCommand l e) = ''command '' @ quoted l @ '', '' @ errorText e"
| "errorText (MultipleArgumentLabel c l) =
     ''command '' @ quoted c @ '', multiple occurrences of the argument label '' @ quoted l"
| "errorText (InvalidArgumentLabel l) =
     ''invalid argument label '' @ quoted l @ '', invalid special whitespace characters detected''"
| "errorText (ArgumentSpacesAtStart l) =
     ''invalid argument label '' @ quoted l @ '', spaces detected at start''"
| "errorText (ArgumentSpacesAtEnd l) =
     ''invalid argument label '' @ quoted l @ '', spaces detected at end''"
| "errorText (InArgument a e) = ''argument '' @ quoted a @ '', '' @ errorText e"
| "errorText (MultipleOptionLabel a l) =
     ''argument '' @ quoted a @ '', multiple occurrences of the option label '' @ quoted l"
| "errorText (MultipleOptionShort a s) =
     ''argument '' @ quoted a @ '', multiple occurrences of the option short '' @ quoted s"
| "errorText (MultipleOptionLong a l) =
     ''argument '' @ quoted a @ '', multiple occurrences of the option long '' @ quoted l"
| "errorText EmptyOptionLabel = ''empty option label detected''"
| "errorText (InvalidOptionLabel l) =
     ''invalid option label '' @ quoted l @ '', invalid whitespace characters detected''"
| "errorText NoShortNoLong =
     ''at least one of option short or option long must be provided''"
| "errorText (ShortWithoutDash s) =
     ''invalid option short '' @ quoted s @ '', must start with a single dash (-)''"
| "errorText (ShortNotTwoCharacters s) =
     ''invalid option short '' @ quoted s
       @ '', must be a single dash (-) followed by a single character''"
| "errorText (ShortWhitespace s) =
     ''invalid option short '' @ quoted s @ '', whitespace characters detected''"
| "errorText (ShortInvalidCharacters s) =
     ''invalid option short '' @ quoted s @ '', invalid characters detected''"
| "errorText (LongWithoutDashes l) =
     ''invalid option long '' @ quoted l @ '', must start with a double dash (--)''"
| "errorText (LongTooShort l) =
     ''invalid option long '' @ quoted l @ '', must be longer than two characters''"
| "errorText (LongWhitespace l) =
     ''invalid option long '' @ quoted l @ '', special whitespace characters detected''"
| "errorText (LongInvalidCharacters l) =
     ''invalid option long '' @ quoted l @ '', invalid characters detected''"
| "errorText (InOption l e) = ''option '' @ quoted l @ '', '' @ errorText e"
| "errorText EmptyVariableLabel = ''empty variable label detected''"
| "errorText (InvalidVariableLabel l) =
     ''invalid variable label '' @ quoted l @ '', invalid whitespace characters detected''"
| "errorText MissingExitCmd = ''missing/empty exit command '' @ quoted ''exitCmd''"
| "errorText MissingHelpCmd = ''missing/empty help command '' @ quoted ''helpCmd''"
| "errorText MissingCommands = ''missing/empty commands '' @ quoted ''commands''"
| "errorText (CommandIsExitCmd c) =
     ''command cannot share same label as exit command '' @ quoted c"
| "errorText (CommandIsHelpCmd c) =
     ''command cannot share same label as help command '' @ quoted c"
| "errorText (UnableToFindCommand l) = ''unable to find command '' @ quoted l"
| "errorText (NoValidArgument c) =
     ''invalid use of the '' @ quoted c @ '' command, no valid argument provided''"
| "errorText (MissingVariable v opt) =
     ''missing variable '' @ quoted v @ '' for option '' @ quoted opt"
| "errorText (RequiredOptionMissingVariable opt v) =
     ''required option '' @ quoted opt @ '' missing required variable '' @ quoted v"
| "errorText (InvalidText s) = ''invalid text '' @ quoted s @ '' detected''"


section \<open>The grammar validator\<close>

text \<open>A returned \<open>error\<close> of the source is \<open>Some\<close> error here, and \<open>nil\<close> is \<open>None\<close>.\<close>

definition Variable_validate :: "Variable \<Rightarrow> error option" where
  "Variable_validate va =
     (if var_Label va = [] then Some EmptyVariableLabel
      else if ContainsAny (var_Label va) specialWhitespace
        then Some (InvalidVariableLabel (var_Label va))
      else None)"

definition Option_validate :: "Option_cli \<Rightarrow> error option" where
  "Option_validate opt =
     (if opt_Label opt = [] then Some EmptyOptionLabel
      else if ContainsAny (opt_Label opt) specialWhitespace
        then Some (InvalidOptionLabel (opt_Label opt))
      else if opt_Short opt = [] \<and> opt_Long opt = [] then Some NoShortNoLong
      else if opt_Short opt \<noteq> [] \<and> \<not> HasPrefix (opt_Short opt) ''-''
        then Some (ShortWithoutDash (opt_Short opt))
      else if opt_Short opt \<noteq> [] \<and> length (opt_Short opt) \<noteq> 2
        then Some (ShortNotTwoCharacters (opt_Short opt))
      else if opt_Short opt \<noteq> [] \<and> ContainsAny (drop 1 (opt_Short opt)) whitespaceCharacters
        then Some (ShortWhitespace (opt_Short opt))
      else if opt_Short opt \<noteq> [] \<and> ContainsAny (drop 1 (opt_Short opt)) ''[]{}()-=''
        then Some (ShortInvalidCharacters (opt_Short opt))
      else if opt_Long opt \<noteq> [] \<and> \<not> HasPrefix (opt_Long opt) ''--''
        then Some (LongWithoutDashes (opt_Long opt))
      else if opt_Long opt \<noteq> [] \<and> length (opt_Long opt) = 2
        then Some (LongTooShort (opt_Long opt))
      else if opt_Long opt \<noteq> [] \<and> ContainsAny (opt_Long opt) specialWhitespace
        then Some (LongWhitespace (opt_Long opt))
      else if opt_Long opt \<noteq> [] \<and> ContainsAny (opt_Long opt) ''[]{}()=''
        then Some (LongInvalidCharacters (opt_Long opt))
      else (case opt_Variable opt of
              None \<Rightarrow> None
            | Some va \<Rightarrow>
                (case Variable_validate va of
                   None \<Rightarrow> None
                 | Some err \<Rightarrow> Some (InOption (opt_Label opt) err))))"

text \<open>
  The loop of \<open>Argument.validate\<close> over the options. The three maps
  \<open>labels\<close>, \<open>shorts\<close>, \<open>longs\<close> of type \<open>map[string]bool\<close> only ever store \<open>true\<close>
  and are only asked whether a key is present, so each is the set of its keys.
\<close>

fun validateOptions ::
  "string \<Rightarrow> Option_cli list \<Rightarrow> string set \<Rightarrow> string set \<Rightarrow> string set \<Rightarrow> error option"
where
  "validateOptions argLabel [] labels shorts longs = None"
| "validateOptions argLabel (opt # opts) labels shorts longs =
     (case Option_validate opt of
        Some err \<Rightarrow> Some (InArgument argLabel err)
      | None \<Rightarrow>
          if opt_Label opt \<in> labels
            then Some (MultipleOptionLabel argLabel (opt_Label opt))
          else if opt_Short opt \<noteq> [] \<and> opt_Short opt \<in> shorts
            then Some (MultipleOptionShort argLabel (opt_Short opt))
          else if opt_Long opt \<noteq> [] \<and> opt_Long opt \<in> longs
            then Some (MultipleOptionLong argLabel (opt_Long opt))
          else validateOptions argLabel opts
                 (insert (opt_Label opt) labels)
                 (if opt_Short opt \<noteq> [] then insert (opt_Short opt) shorts else shorts)
                 (if opt_Long opt \<noteq> [] then insert (opt_Long opt) longs else longs))"

definition Argument_validate :: "Argument \<Rightarrow> error option" where
  "Argument_validate arg =
     (if ContainsAny (arg_Label arg) specialWhitespace
        then Some (InvalidArgumentLabel (arg_Label arg))
      else if TrimLeft (arg_Label arg) '' '' \<noteq> arg_Label arg
        then Some (ArgumentSpacesAtStart (arg_Label arg))
      else if TrimRight (arg_Label arg) '' '' \<noteq> arg_Label arg
        then Some (ArgumentSpacesAtEnd (arg_Label arg))
      else validateOptions (arg_Label arg) (arg_Options arg) {} {} {})"

text \<open>The loop of \<open>Command.validate\<close> over the arguments.\<close>

fun validateArguments :: "string \<Rightarrow> Argument list \<Rightarrow> string set \<Rightarrow> error option" where
  "validateArguments cmdLabel [] labels = None"
| "validateArguments cmdLabel (arg # args) labels =
     (case Argument_validate arg of
        Some err \<Rightarrow> Some (InCommand cmdLabel err)
      | None \<Rightarrow>
          if arg_Label arg \<in> labels
            then Some (MultipleArgumentLabel cmdLabel (arg_Label arg))
          else validateArguments cmdLabel args (insert (arg_Label arg) labels))"

definition Command_validate :: "Command \<Rightarrow> error option" where
  "Command_validate cmd =
     (if cmd_Label cmd = [] then Some EmptyCommandLabel
      else if ContainsAny (cmd_Label cmd) whitespaceCharacters
        then Some (InvalidCommandLabel (cmd_Label cmd))
      else if length (cmd_Arguments cmd) = 0
        then Some (CommandNeedsArgument (cmd_Label cmd))
      else validateArguments (cmd_Label cmd) (cmd_Arguments cmd) {})"


section \<open>The help generator\<close>

definition friendlyName :: "Argument \<Rightarrow> string" where
  "friendlyName arg = (if arg_Label arg = [] then ''(no arguments)'' else arg_Label arg)"

text \<open>The running maximum \<open>if longest < len(x) { longest = len(x) }\<close> of both listings.\<close>

definition longestLength :: "string list \<Rightarrow> nat" where
  "longestLength xs = foldl (\<lambda>longest x. if longest < length x then length x else longest) 0 xs"

definition describeArguments :: "Argument list \<Rightarrow> string" where
  "describeArguments arguments =
     (let optional = list_ex (\<lambda>argument. arg_Label argument = []) arguments;
          labels = filter (\<lambda>l. l \<noteq> []) (map arg_Label arguments);
          desc = Join labels ''|'';
          desc = (if optional then ''['' @ desc @ '']'' else desc) @ nl;
          longestLabelLength = longestLength (map friendlyName arguments)
      in desc @ concat (map (\<lambda>argument.
           tab @ padRight longestLabelLength (friendlyName argument) @ '' ''
             @ arg_HelpMsg argument @ nl) arguments))"

text \<open>
  The first loop of \<open>describeOptions\<close>, with its four accumulators
  \<open>reqShort\<close>, \<open>reqLong\<close>, \<open>optShort\<close>, \<open>optLong\<close>.
\<close>

fun groupOptions ::
  "Option_cli list \<Rightarrow> string \<times> string \<times> string \<times> string \<Rightarrow> string \<times> string \<times> string \<times> string"
where
  "groupOptions [] acc = acc"
| "groupOptions (option # options) (reqShort, reqLong, optShort, optLong) =
     groupOptions options
       (case opt_Variable option of
          Some va \<Rightarrow>
            if var_Required va then
              if opt_Short option \<noteq> []
                then (reqShort @ opt_Short option @ '' '' @ var_Label va @ '' '',
                      reqLong, optShort, optLong)
              else (reqShort, reqLong @ opt_Long option @ ''='' @ var_Label va @ '' '',
                    optShort, optLong)
            else if opt_Short option \<noteq> []
              then (reqShort, reqLong,
                    (if optShort = [] then opt_Short option
                     else optShort @ drop 1 (opt_Short option)), optLong)
            else (reqShort, reqLong, optShort, optLong @ opt_Long option @ '' '')
        | None \<Rightarrow>
            if opt_Short option \<noteq> []
              then (reqShort, reqLong,
                    (if optShort = [] then opt_Short option
                     else optShort @ drop 1 (opt_Short option)), optLong)
            else (reqShort, reqLong, optShort, optLong @ opt_Long option @ '' ''))"

definition describeOptions :: "Option_cli list \<Rightarrow> string" where
  "describeOptions options =
     (case groupOptions options ([], [], [], []) of
        (reqShort, reqLong, optShort, optLong) \<Rightarrow>
          (let reqShort = TrimRight reqShort '' '';
               desc = (if reqShort \<noteq> [] then reqShort @ '' '' else []);
               reqLong = TrimRight reqLong '' '';
               desc = (if reqLong \<noteq> [] then desc @ reqLong @ '' '' else desc);
               optShort = TrimRight optShort '' '';
               desc = (if optShort \<noteq> [] then desc @ optShort @ '' '' else desc);
               optLong = TrimRight optLong '' '';
               desc = (if optLong \<noteq> [] then desc @ optLong else desc);
               desc = TrimRight desc '' '' @ nl;
               longestLongLength = longestLength (map opt_Long options)
           in desc @ concat (map (\<lambda>option.
                tab @ opt_Short option @ '' '' @ padRight longestLongLength (opt_Long option)
                  @ '' '' @ opt_HelpMsg option @ nl) options)))"

text \<open>\<open>func (arg Argument) helpArg() string\<close>\<close>

definition Argument_helpArg :: "Argument \<Rightarrow> string" where
  "Argument_helpArg arg = friendlyName arg @ '' '' @ describeOptions (arg_Options arg) @ nl"

text \<open>\<open>func (cmd Command) helpCmd() string\<close>\<close>

definition helpCmd :: "Command \<Rightarrow> string" where
  "helpCmd cmd =
     nl @ ''Usage: '' @ cmd_Label cmd @ nl @ nl @ cmd_Label cmd @ '' ''
       @ describeArguments (cmd_Arguments cmd) @ nl
       @ concat (map (\<lambda>arg. cmd_Label cmd @ '' '' @ Argument_helpArg arg) (cmd_Arguments cmd))"

text \<open>\<open>func (cmd Command) helpArg(arg Argument) string\<close>\<close>

definition helpArg :: "Command \<Rightarrow> Argument \<Rightarrow> string" where
  "helpArg cmd arg =
     nl @ ''Usage: '' @ cmd_Label cmd @ '' '' @ friendlyName arg @ nl @ nl
       @ cmd_Label cmd @ '' '' @ Argument_helpArg arg"

definition createHelp :: "Command \<Rightarrow> Flags \<Rightarrow> string" where
  "createHelp cmd = (\<lambda>_. helpCmd cmd)"

definition createArgHelp :: "Command \<Rightarrow> Argument \<Rightarrow> Flags \<Rightarrow> string" where
  "createArgHelp cmd arg = (\<lambda>_. helpArg cmd arg)"

definition createExecutable :: "Command \<Rightarrow> Argument \<Rightarrow> Flags \<Rightarrow> string" where
  "createExecutable cmd arg = (\<lambda>_. quoted (arg_ExecFunc arg) @ '' is not configured'' @ nl)"

text \<open>\<open>func (config Config) createHelp()\<close>: every command's help, in order.\<close>

definition Config_createHelp :: "Command list \<Rightarrow> Flags \<Rightarrow> string" where
  "Config_createHelp commands = (\<lambda>flags. concat (map (\<lambda>command. cmd_help command flags) commands))"


section \<open>Loading a grammar\<close>

text \<open>The loop of \<open>LoadConfig\<close> that checks the commands.\<close>

fun checkCommands :: "Config \<Rightarrow> Command list \<Rightarrow> error option" where
  "checkCommands cfg [] = None"
| "checkCommands cfg (command # commands) =
     (if cmd_Label command = cfg_ExitCmd cfg then Some (CommandIsExitCmd (cfg_ExitCmd cfg))
      else if cmd_Label command = cfg_HelpCmd cfg then Some (CommandIsHelpCmd (cfg_HelpCmd cfg))
      else (case Command_validate command of
              Some err \<Rightarrow> Some err
            | None \<Rightarrow> checkCommands cfg commands))"

text \<open>
  The loop of \<open>LoadConfig\<close> that generates the placeholder and help functions of one
  command. The help closures read labels, options and help messages only, which the
  loop does not assign.
\<close>

definition generateFunctions :: "Command \<Rightarrow> Command" where
  "generateFunctions command =
     command\<lparr>cmd_Arguments :=
                 map (\<lambda>argument. argument\<lparr>arg_executable := createExecutable command argument,
                                           arg_help := createArgHelp command argument\<rparr>)
                     (cmd_Arguments command),
             cmd_help := createHelp command\<rparr>"

text \<open>
  \<open>LoadConfig\<close> from the point where the file has been read and unmarshalled into
  a \<open>Config\<close>: the checks, then the generated functions.
\<close>

definition LoadConfig :: "Config \<Rightarrow> error + Config" where
  "LoadConfig cfg =
     (if cfg_ExitCmd cfg = [] then Inl MissingExitCmd
      else if cfg_HelpCmd cfg = [] then Inl MissingHelpCmd
      else if length (cfg_Commands cfg) = 0 then Inl MissingCommands
      else (case checkCommands cfg (cfg_Commands cfg) of
              Some err \<Rightarrow> Inl err
            | None \<Rightarrow>
                (let commands = map generateFunctions (cfg_Commands cfg)
                 in Inr (cfg\<lparr>cfg_Commands := commands,
                             cfg_init := (\<lambda>_. []),
                             cfg_exit := (\<lambda>_. []),
                             cfg_help := Config_createHelp commands\<rparr>))))"


section \<open>The resolvers\<close>

definition extractCommand :: "App \<Rightarrow> string \<Rightarrow> error + (Command \<times> string)" where
  "extractCommand app input =
     (let (commandLabel, remainingInput) =
            (case Index input '' '' of
               None \<Rightarrow> (input, [])
             | Some index \<Rightarrow> (take index input, TrimLeft (drop index input) whitespaceCharacters))
      in case find (\<lambda>cmd. cmd_Label cmd = commandLabel) (cfg_Commands (config app)) of
           Some cmd \<Rightarrow> Inr (cmd, remainingInput)
         | None \<Rightarrow> Inl (UnableToFindCommand commandLabel))"

text \<open>
  The loop of \<open>extractArgument\<close>. The accumulator holds \<open>argument\<close> and
  \<open>optionsInput\<close>, which the source assigns together with \<open>foundArg = true\<close>; it is
  \<open>None\<close> while \<open>foundArg\<close> is false. The \<open>break\<close> is the branch without a recursive call.
\<close>

fun findArgument ::
  "Argument list \<Rightarrow> string \<Rightarrow> (Argument \<times> string) option \<Rightarrow> (Argument \<times> string) option"
where
  "findArgument [] remainingInput found = found"
| "findArgument (arg # args) remainingInput found =
     (if arg_Label arg = [] then findArgument args remainingInput (Some (arg, remainingInput))
      else (case Index remainingInput (arg_Label arg) of
              None \<Rightarrow> findArgument args remainingInput found
            | Some index \<Rightarrow>
                (let after = drop (index + length (arg_Label arg)) remainingInput
                 in if after \<noteq> [] \<and> \<not> HasPrefix after '' ''
                      then findArgument args remainingInput found
                    else Some (arg, take index remainingInput @ '' '' @ after))))"

text \<open>The receiver \<open>app\<close> of \<open>extractArgument\<close> and \<open>extractFlags\<close> is not read.\<close>

definition extractArgument :: "string \<Rightarrow> Command \<Rightarrow> error + (Argument \<times> string)" where
  "extractArgument remainingInput command =
     (case findArgument (cmd_Arguments command) remainingInput None of
        None \<Rightarrow> Inl (NoValidArgument (cmd_Label command))
      | Some (argument, optionsInput) \<Rightarrow> Inr (argument, optionsInput))"

text \<open>The default flag metadata: one entry per option label.\<close>

definition defaultMetadata :: "Option_cli list \<Rightarrow> string \<rightharpoonup> flagMetadata" where
  "defaultMetadata options =
     foldl (\<lambda>metadata option.
              metadata(opt_Label option \<mapsto> \<lparr>isset = False, hasVar = False, variable = []\<rparr>))
           Map.empty options"

text \<open>
  The inner loop of \<open>extractFlags\<close> over the options, for the token \<open>s\<close> at
  position \<open>i\<close> of \<open>optionsStrings\<close>. The state is the metadata map and
  \<open>expectingValue\<close>. An option that matches ends the loop, by \<open>break\<close> or by
  \<open>return\<close>; when none matches the state is as before.
\<close>

fun matchOptions ::
  "Option_cli list \<Rightarrow> string list \<Rightarrow> nat \<Rightarrow> string \<Rightarrow> (string \<rightharpoonup> flagMetadata) \<times> bool
     \<Rightarrow> error + ((string \<rightharpoonup> flagMetadata) \<times> bool)"
where
  "matchOptions [] optionsStrings i s (metadata, expectingValue) =
     Inr (metadata, expectingValue)"
| "matchOptions (option # options) optionsStrings i s (metadata, expectingValue) =
     (if opt_Short option \<noteq> s \<and> opt_Long option \<noteq> s
        then matchOptions options optionsStrings i s (metadata, expectingValue)
      else (case opt_Variable option of
              None \<Rightarrow>
                Inr (metadata(opt_Label option \<mapsto>
                       \<lparr>isset = True, hasVar = False, variable = []\<rparr>), expectingValue)
            | Some va \<Rightarrow>
                if opt_Short option = s then
                  (if i + 1 < length optionsStrings
                     then Inr (metadata(opt_Label option \<mapsto>
                                 \<lparr>isset = True, hasVar = True,
                                  variable = optionsStrings ! (i + 1)\<rparr>), True)
                   else if var_Required va
                     then Inl (MissingVariable (var_Label va) (opt_Label option))
                   else Inr (metadata(opt_Label option \<mapsto>
                               \<lparr>isset = True, hasVar = True, variable = var_Default va\<rparr>), True))
                else
                  (case Index s ''='' of
                     Some index \<Rightarrow>
                       Inr (metadata(opt_Label option \<mapsto>
                              \<lparr>isset = True, hasVar = True, variable = drop index s\<rparr>),
                            expectingValue)
                   | None \<Rightarrow>
                       if var_Required va
                         then Inl (RequiredOptionMissingVariable (opt_Label option) (var_Label va))
                       else Inr (metadata(opt_Label option \<mapsto>
                                   \<lparr>isset = True, hasVar = True, variable = var_Default va\<rparr>),
                                 expectingValue))))"

text \<open>The body of the outer loop for position \<open>i\<close>: \<open>Inl\<close> is the \<open>return\<close> of an error.\<close>

definition scanToken ::
  "Option_cli list \<Rightarrow> string list \<Rightarrow> nat \<Rightarrow> (string \<rightharpoonup> flagMetadata) \<times> bool
     \<Rightarrow> error + ((string \<rightharpoonup> flagMetadata) \<times> bool)"
where
  "scanToken options optionsStrings i st =
     (let s = optionsStrings ! i
      in if s = [] then Inr st
         else if HasPrefix s ''-'' then matchOptions options optionsStrings i s st
         else if \<not> snd st then Inl (InvalidText s)
         else Inr st)"

text \<open>The outer loop \<open>for i, s := range optionsStrings\<close>, from position \<open>i\<close> on.\<close>

function scanTokens ::
  "Option_cli list \<Rightarrow> string list \<Rightarrow> nat \<Rightarrow> (string \<rightharpoonup> flagMetadata) \<times> bool
     \<Rightarrow> error + ((string \<rightharpoonup> flagMetadata) \<times> bool)"
where
  "scanTokens options optionsStrings i st =
     (if i < length optionsStrings
        then (case scanToken options optionsStrings i st of
                Inl err \<Rightarrow> Inl err
              | Inr st' \<Rightarrow> scanTokens options optionsStrings (Suc i) st')
      else Inr st)"
  by pat_completeness auto
termination
  by (relation "measure (\<lambda>(options, optionsStrings, i, st). length optionsStrings - i)") auto

declare scanTokens.simps [simp del]

definition extractFlags :: "string \<Rightarrow> Argument \<Rightarrow> error + Flags" where
  "extractFlags optionsInput argument =
     (case scanTokens (arg_Options argument) (Split optionsInput (CHR '' '')) 0
             (defaultMetadata (arg_Options argument), False) of
        Inl err \<Rightarrow> Inl err
      | Inr (metadata, expectingValue) \<Rightarrow> Inr \<lparr>mapping = metadata\<rparr>)"


section \<open>The dispatcher\<close>

definition prepareExit :: "App \<Rightarrow> App" where
  "prepareExit app = app\<lparr>active := False\<rparr>"

definition getHelpOutput :: "App \<Rightarrow> string \<Rightarrow> string" where
  "getHelpOutput app input =
     (if input = [] then cfg_help (config app) emptyFlags
      else (case extractCommand app input of
              Inl err \<Rightarrow> errorText err @ nl
            | Inr (command, remainingInput) \<Rightarrow>
                if remainingInput = [] then cmd_help command emptyFlags
                else (case extractArgument remainingInput command of
                        Inl err \<Rightarrow> errorText err @ nl
                      | Inr (argument, optionsInput) \<Rightarrow> arg_help argument emptyFlags)))"

text \<open>
  \<open>getOutput\<close> returns the output bytes; the app is returned with them because
  \<open>prepareExit\<close> assigns \<open>active\<close>. Handlers are functions from flags to bytes.
\<close>

definition getOutput :: "App \<Rightarrow> string \<Rightarrow> App \<times> string" where
  "getOutput app input0 =
     (let input = Trim input0 whitespaceCharacters
      in if input = [] then (app, [])
         else if input = cfg_ExitCmd (config app)
           then (prepareExit app, cfg_exit (config app) emptyFlags)
         else if HasSuffix input (cfg_HelpCmd (config app))
           then (app, getHelpOutput app
                        (TrimRight (take (length input - length (cfg_HelpCmd (config app))) input)
                           whitespaceCharacters))
         else (case extractCommand app input of
                 Inl err \<Rightarrow> (app, errorText err @ nl)
               | Inr (command, remainingInput) \<Rightarrow>
                   (case extractArgument remainingInput command of
                      Inl err \<Rightarrow> (app, errorText err @ nl)
                    | Inr (argument, optionsInput) \<Rightarrow>
                        (case extractFlags optionsInput argument of
                           Inl err \<Rightarrow> (app, errorText err @ nl)
                         | Inr flags \<Rightarrow> (app, arg_executable argument flags)))))"


section \<open>A sample grammar\<close>

text \<open>
  The grammar of the testable properties: command \<open>show\<close> with the argument \<open>""\<close>,
  whose option \<open>readOnly\<close> (\<open>-r\<close>, \<open>--read-only\<close>) has no variable, and the argument
  \<open>daily-tasks\<close>, whose option \<open>readOnly\<close> (\<open>-r\<close>, \<open>--read-only\<close>) has the required variable \<open>var4\<close>
  with default \<open>das\<close>. Commands, help messages, \<open>exitCmd\<close> and \<open>helpCmd\<close> are those of
  the sample of the README. Unmarshalling leaves the function fields unset;
  \<open>LoadConfig\<close> assigns each of them.
\<close>

definition unset :: "Flags \<Rightarrow> string" where
  "unset = (\<lambda>_. [])"

definition var4 :: Variable where
  "var4 = \<lparr>var_Label = ''var4'', var_Required = True, var_Default = ''das''\<rparr>"

definition readOnlyPlain :: Option_cli where
  "readOnlyPlain =
     \<lparr>opt_Label = ''readOnly'', opt_Short = ''-r'', opt_Long = ''--read-only'',
      opt_Variable = None, opt_HelpMsg = ''Short desc''\<rparr>"

definition readOnlyVar :: Option_cli where
  "readOnlyVar =
     \<lparr>opt_Label = ''readOnly'', opt_Short = ''-r'', opt_Long = ''--read-only'',
      opt_Variable = Some var4, opt_HelpMsg = ''Short desc''\<rparr>"

definition noArgument :: Argument where
  "noArgument =
     \<lparr>arg_Label = [], arg_Options = [readOnlyPlain], arg_ExecFunc = ''MyFunc'',
      arg_executable = unset, arg_HelpMsg = ''Show will show the stuff you want'',
      arg_help = unset\<rparr>"

definition dailyTasks :: Argument where
  "dailyTasks =
     \<lparr>arg_Label = ''daily-tasks'', arg_Options = [readOnlyVar], arg_ExecFunc = ''MyFunc2'',
      arg_executable = unset, arg_HelpMsg = ''Show will show the other stuff you want'',
      arg_help = unset\<rparr>"

definition showCommand :: Command where
  "showCommand =
     \<lparr>cmd_Label = ''show'', cmd_Arguments = [noArgument, dailyTasks], cmd_help = unset\<rparr>"

definition sampleYaml :: Config where
  "sampleYaml =
     \<lparr>cfg_Prompt = ''>>> '', cfg_Commands = [showCommand],
      cfg_InitFunc = ''Setup'', cfg_init = unset,
      cfg_ExitFunc = ''Leave'', cfg_exit = unset, cfg_help = unset,
      cfg_ExitCmd = ''leave'', cfg_HelpCmd = ''help''\<rparr>"

text \<open>The app of the sample grammar as \<open>LoadConfig\<close> and \<open>New\<close> leave it.\<close>

definition sampleApp :: App where
  "sampleApp =
     \<lparr>config = (case LoadConfig sampleYaml of Inr cfg \<Rightarrow> cfg | Inl _ \<Rightarrow> sampleYaml),
      active = True\<rparr>"


section \<open>The argument policy in the words of the specification\<close>

text \<open>
  The specification words the policy of the argument resolver without the loop:
  a non-empty label is accepted when it occurs in the remainder and the character
  after its occurrence is absent or a space; the first accepted argument in
  configured order wins, its label replaced by a single space; otherwise the
  empty-label argument is used with the entire remainder; otherwise nothing is found.
  \<open>resolveArgument\<close> is that policy, to be compared with \<open>extractArgument\<close>.
  The occurrence that \<open>strings.Index\<close> finds is the first one.
\<close>

definition accepted :: "string \<Rightarrow> Argument \<Rightarrow> bool" where
  "accepted remainder arg =
     (arg_Label arg \<noteq> [] \<and>
      (case Index remainder (arg_Label arg) of
         None \<Rightarrow> False
       | Some index \<Rightarrow>
           index + length (arg_Label arg) = length remainder
           \<or> (index + length (arg_Label arg) < length remainder
              \<and> remainder ! (index + length (arg_Label arg)) = CHR '' '')))"

text \<open>The remainder with the occurrence of the label replaced by a single space.\<close>

definition excise :: "string \<Rightarrow> string \<Rightarrow> string" where
  "excise remainder label =
     (case Index remainder label of
        None \<Rightarrow> remainder
      | Some index \<Rightarrow> take index remainder @ '' '' @ drop (index + length label) remainder)"

text \<open>Among several empty-label arguments the loop keeps the last one it met.\<close>

definition resolveArgument :: "string \<Rightarrow> Command \<Rightarrow> error + (Argument \<times> string)" where
  "resolveArgument remainder command =
     (case find (accepted remainder) (cmd_Arguments command) of
        Some arg \<Rightarrow> Inr (arg, excise remainder (arg_Label arg))
      | None \<Rightarrow>
          (case find (\<lambda>arg. arg_Label arg = []) (rev (cmd_Arguments command)) of
             Some arg \<Rightarrow> Inr (arg, remainder)
           | None \<Rightarrow> Inl (NoValidArgument (cmd_Label command))))"


section \<open>Facts about the string functions\<close>

lemma Index_Some_occurs:
  "Index s substr = Some k \<Longrightarrow> k + length substr \<le> length s \<and> take (length substr) (drop k s) = substr"
proof (induction s arbitrary: k)
  case Nil
  then show ?case by (simp split: if_splits)
next
  case (Cons c cs)
  show ?case
  proof (cases "HasPrefix (c # cs) substr")
    case True
    with Cons.prems have "k = 0" by simp
    with True show ?thesis by (simp add: HasPrefix_def)
  next
    case False
    with Cons.prems obtain k' where "Index cs substr = Some k'" "k = Suc k'"
      by auto
    with Cons.IH [of k'] show ?thesis by simp
  qed
qed

lemma Index_Some_first:
  "Index s substr = Some k \<Longrightarrow> j < k \<Longrightarrow> \<not> HasPrefix (drop j s) substr"
proof (induction s arbitrary: k j)
  case Nil
  then show ?case by (simp split: if_splits)
next
  case (Cons c cs)
  from Cons.prems have np: "\<not> HasPrefix (c # cs) substr"
    by (auto split: if_splits)
  with Cons.prems obtain k' where k': "Index cs substr = Some k'" "k = Suc k'"
    by auto
  show ?case
  proof (cases j)
    case 0
    with np show ?thesis by simp
  next
    case (Suc j')
    with Cons.prems k' have "j' < k'" by simp
    from Cons.IH [OF k'(1) this] Suc show ?thesis by simp
  qed
qed

lemma Index_None_absent:
  "Index s substr = None \<Longrightarrow> \<not> HasPrefix (drop j s) substr"
proof (induction s arbitrary: j)
  case Nil
  then show ?case by (auto simp: HasPrefix_def split: if_splits)
next
  case (Cons c cs)
  from Cons.prems have np: "\<not> HasPrefix (c # cs) substr" and r: "Index cs substr = None"
    by (auto split: if_splits)
  show ?case
  proof (cases j)
    case 0
    with np show ?thesis by simp
  next
    case (Suc j')
    with Cons.IH [OF r, of j'] show ?thesis by simp
  qed
qed

lemma HasPrefix_drop_char:
  "HasPrefix (drop n s) [c] = (n < length s \<and> s ! n = c)"
proof (cases "n < length s")
  case True
  then have "drop n s = s ! n # drop (Suc n) s" by (simp add: Cons_nth_drop_Suc)
  then show ?thesis using True by (simp add: HasPrefix_def)
next
  case False
  then show ?thesis by (simp add: HasPrefix_def)
qed

lemma find_snoc:
  "find P (xs @ [a]) = (case find P xs of Some e \<Rightarrow> Some e | None \<Rightarrow> if P a then Some a else None)"
  by (induction xs) simp_all

lemma find_first:
  "\<forall>b \<in> set before. \<not> P b \<Longrightarrow> P a \<Longrightarrow> find P (before @ a # rest) = Some a"
  by (induction before) simp_all


section \<open>The sample grammar loads\<close>

lemmas sample_defs = sampleYaml_def showCommand_def noArgument_def dailyTasks_def
  readOnlyPlain_def readOnlyVar_def var4_def

lemmas string_defs = HasPrefix_def HasSuffix_def ContainsAny_def TrimLeft_def TrimRight_def
  Trim_def whitespaceCharacters_def specialWhitespace_def

lemma showCommand_valid: "Command_validate showCommand = None"
  by (simp add: Command_validate_def Argument_validate_def Option_validate_def
      Variable_validate_def sample_defs string_defs)

lemma sample_loaded:
  "LoadConfig sampleYaml =
     Inr (sampleYaml\<lparr>cfg_Commands := [generateFunctions showCommand],
                     cfg_init := (\<lambda>_. []), cfg_exit := (\<lambda>_. []),
                     cfg_help := Config_createHelp [generateFunctions showCommand]\<rparr>)"
proof -
  have fields: "cfg_Commands sampleYaml = [showCommand]" "cfg_ExitCmd sampleYaml = ''leave''"
    "cfg_HelpCmd sampleYaml = ''help''" "cmd_Label showCommand = ''show''"
    by (simp_all add: sampleYaml_def showCommand_def)
  show ?thesis
    by (simp add: LoadConfig_def fields showCommand_valid Let_def)
qed

lemma sampleApp_commands: "cfg_Commands (config sampleApp) = [generateFunctions showCommand]"
  and sampleApp_HelpCmd: "cfg_HelpCmd (config sampleApp) = ''help''"
  and sampleApp_ExitCmd: "cfg_ExitCmd (config sampleApp) = ''leave''"
  by (simp_all add: sampleApp_def sample_loaded) (simp_all add: sampleYaml_def)

lemma show_Arguments:
  "cmd_Arguments (generateFunctions showCommand) =
     [noArgument\<lparr>arg_executable := createExecutable showCommand noArgument,
                  arg_help := createArgHelp showCommand noArgument\<rparr>,
      dailyTasks\<lparr>arg_executable := createExecutable showCommand dailyTasks,
                  arg_help := createArgHelp showCommand dailyTasks\<rparr>]"
  and show_Label: "cmd_Label (generateFunctions showCommand) = ''show''"
  and show_help: "cmd_help (generateFunctions showCommand) = createHelp showCommand"
  by (simp_all add: generateFunctions_def showCommand_def)


section \<open>The flag resolver\<close>

lemma dom_foldl_default:
  "dom (foldl (\<lambda>metadata option. metadata(opt_Label option \<mapsto> d)) m options)
     = dom m \<union> opt_Label ` set options"
  by (induction options arbitrary: m) auto

lemma dom_defaultMetadata: "dom (defaultMetadata options) = opt_Label ` set options"
  by (simp add: defaultMetadata_def dom_foldl_default)

lemma matchOptions_dom:
  "matchOptions os toks i s st = Inr st' \<Longrightarrow> opt_Label ` set os \<subseteq> dom (fst st)
     \<Longrightarrow> dom (fst st') = dom (fst st)"
proof (induction os)
  case Nil
  then show ?case by (cases st) simp
next
  case (Cons option os)
  obtain metadata expectingValue where st: "st = (metadata, expectingValue)"
    by (cases st)
  from Cons.prems(2) have here: "opt_Label option \<in> dom metadata"
    and rest: "opt_Label ` set os \<subseteq> dom (fst st)"
    by (simp_all add: st)
  show ?case
  proof (cases "opt_Short option \<noteq> s \<and> opt_Long option \<noteq> s")
    case True
    with Cons.prems(1) have "matchOptions os toks i s st = Inr st'"
      by (simp add: st)
    from Cons.IH [OF this rest] show ?thesis .
  next
    case False
    with Cons.prems(1) here show ?thesis
      by (auto simp: st insert_absorb split: option.splits if_splits)
  qed
qed

lemma scanToken_dom:
  "scanToken os toks i st = Inr st' \<Longrightarrow> opt_Label ` set os \<subseteq> dom (fst st)
     \<Longrightarrow> dom (fst st') = dom (fst st)"
  unfolding scanToken_def Let_def
  by (simp split: if_splits) (erule (1) matchOptions_dom)

lemma scanTokens_dom:
  "scanTokens os toks i st = Inr st' \<Longrightarrow> opt_Label ` set os \<subseteq> dom (fst st)
     \<Longrightarrow> dom (fst st') = dom (fst st)"
proof (induction os toks i st rule: scanTokens.induct)
  case (1 options optionsStrings i st)
  show ?case
  proof (cases "i < length optionsStrings")
    case False
    with "1.prems"(1) show ?thesis by (simp add: scanTokens.simps)
  next
    case True
    with "1.prems"(1) obtain st1 where
      step: "scanToken options optionsStrings i st = Inr st1" and
      rest: "scanTokens options optionsStrings (Suc i) st1 = Inr st'"
      by (subst (asm) scanTokens.simps) (auto split: sum.splits)
    from scanToken_dom [OF step "1.prems"(2)] have d1: "dom (fst st1) = dom (fst st)" .
    with "1.prems"(2) have "opt_Label ` set options \<subseteq> dom (fst st1)" by simp
    from "1.IH" [OF True step rest this] d1 show ?thesis by simp
  qed
qed

lemma matchOptions_find_None:
  "find (\<lambda>option. opt_Short option = s \<or> opt_Long option = s) options = None
     \<Longrightarrow> matchOptions options toks i s st = Inr st"
proof (cases st)
  case (Pair metadata expectingValue)
  assume "find (\<lambda>option. opt_Short option = s \<or> opt_Long option = s) options = None"
  then show ?thesis unfolding Pair
    by (induction options) (auto split: if_splits)
qed


lemma scanTokens_step:
  "i < length toks \<Longrightarrow> scanTokens options toks i st =
     (case scanToken options toks i st of Inl err \<Rightarrow> Inl err
      | Inr st' \<Rightarrow> scanTokens options toks (Suc i) st')"
  by (subst scanTokens.simps) simp

lemma scanTokens_end: "length toks \<le> i \<Longrightarrow> scanTokens options toks i st = Inr st"
  by (subst scanTokens.simps) simp

lemmas flag_defs = extractFlags_def scanTokens.simps scanToken_def defaultMetadata_def

lemmas dispatch_defs = getOutput_def getHelpOutput_def extractCommand_def extractArgument_def
  sampleApp_commands sampleApp_HelpCmd sampleApp_ExitCmd show_Arguments show_Label show_help

text \<open>
  Claim C9. Whenever \<open>extractFlags\<close> succeeds, the keys of the resulting mapping are
  exactly the labels of the argument's options, whatever the options text:
  \<open>Exists\<close> holds of a label if and only if it is one of those labels.
\<close>

theorem extractFlags_keys:
  assumes "extractFlags optionsInput argument = Inr flags"
  shows "dom (mapping flags) = opt_Label ` set (arg_Options argument)
    \<and> Exists flags label = (label \<in> opt_Label ` set (arg_Options argument))"
proof -
  from assms obtain metadata expectingValue where
    run: "scanTokens (arg_Options argument) (Split optionsInput (CHR '' '')) 0
            (defaultMetadata (arg_Options argument), False) = Inr (metadata, expectingValue)"
    and flags: "flags = \<lparr>mapping = metadata\<rparr>"
    by (auto simp: extractFlags_def split: sum.splits)
  from scanTokens_dom [OF run] have keys: "dom metadata = opt_Label ` set (arg_Options argument)"
    by (simp add: dom_defaultMetadata)
  have "Exists flags label = (label \<in> dom (mapping flags))"
    by (auto simp: Exists_def split: option.splits)
  with keys flags show ?thesis by simp
qed

theorem extractFlags_keys_witness:
  "extractFlags '' -r extra'' dailyTasks =
     Inr \<lparr>mapping = [''readOnly'' \<mapsto> \<lparr>isset = True, hasVar = True, variable = ''extra''\<rparr>]\<rparr>
   \<and> Exists \<lparr>mapping = [''readOnly'' \<mapsto> \<lparr>isset = True, hasVar = True, variable = ''extra''\<rparr>]\<rparr>
        ''readOnly''
   \<and> \<not> Exists \<lparr>mapping = [''readOnly'' \<mapsto> \<lparr>isset = True, hasVar = True, variable = ''extra''\<rparr>]\<rparr>
          ''desc''"
proof -
  have run: "extractFlags '' -r extra'' dailyTasks =
     Inr \<lparr>mapping = [''readOnly'' \<mapsto> \<lparr>isset = True, hasVar = True, variable = ''extra''\<rparr>]\<rparr>"
    by (simp add: flag_defs dailyTasks_def readOnlyVar_def var4_def HasPrefix_def)
  from extractFlags_keys [OF run, of "''readOnly''"] extractFlags_keys [OF run, of "''desc''"] run
  show ?thesis by (simp add: dailyTasks_def readOnlyVar_def)
qed

text \<open>
  Claim C6. A token that starts with \<open>-\<close> and equals no option's short or long form
  is ignored: scanning it returns no error and leaves the metadata (and
  \<open>expectingValue\<close>) as they were, so the loop goes on from the next token with the
  state it had.
\<close>

theorem unmatched_dash_token_ignored:
  assumes "i < length optionsStrings" and "optionsStrings ! i = s"
    and "s \<noteq> []" and "HasPrefix s ''-''"
    and "\<forall>option \<in> set options. opt_Short option \<noteq> s \<and> opt_Long option \<noteq> s"
  shows "scanToken options optionsStrings i (metadata, expectingValue)
           = Inr (metadata, expectingValue)
       \<and> scanTokens options optionsStrings i (metadata, expectingValue)
           = scanTokens options optionsStrings (Suc i) (metadata, expectingValue)"
proof -
  from assms(5) have "find (\<lambda>option. opt_Short option = s \<or> opt_Long option = s) options = None"
    by (auto simp: find_None_iff)
  from matchOptions_find_None [OF this]
  have "scanToken options optionsStrings i (metadata, expectingValue)
          = Inr (metadata, expectingValue)"
    using assms(2-4) by (simp add: scanToken_def)
  then show ?thesis using assms(1) by (simp add: scanTokens_step)
qed

theorem unmatched_dash_token_ignored_witness:
  "scanToken [readOnlyVar] ['''', ''--bogus''] 1 (defaultMetadata [readOnlyVar], False)
     = Inr (defaultMetadata [readOnlyVar], False)
   \<and> scanTokens [readOnlyVar] ['''', ''--bogus''] 1 (defaultMetadata [readOnlyVar], False)
     = Inr (defaultMetadata [readOnlyVar], False)
   \<and> extractFlags '' --bogus'' dailyTasks = Inr \<lparr>mapping = defaultMetadata [readOnlyVar]\<rparr>"
proof -
  have "scanToken [readOnlyVar] ['''', ''--bogus''] 1 (defaultMetadata [readOnlyVar], False)
          = Inr (defaultMetadata [readOnlyVar], False)
      \<and> scanTokens [readOnlyVar] ['''', ''--bogus''] 1 (defaultMetadata [readOnlyVar], False)
          = scanTokens [readOnlyVar] ['''', ''--bogus''] (Suc 1)
              (defaultMetadata [readOnlyVar], False)"
    by (rule unmatched_dash_token_ignored [where s = "''--bogus''"])
       (simp_all add: HasPrefix_def readOnlyVar_def)
  then have one: "scanToken [readOnlyVar] ['''', ''--bogus''] 1 (defaultMetadata [readOnlyVar], False)
          = Inr (defaultMetadata [readOnlyVar], False)"
    and two: "scanTokens [readOnlyVar] ['''', ''--bogus''] 1 (defaultMetadata [readOnlyVar], False)
          = Inr (defaultMetadata [readOnlyVar], False)"
    by (simp_all add: scanTokens_end)
  have "scanTokens [readOnlyVar] ['''', ''--bogus''] 0 (defaultMetadata [readOnlyVar], False)
          = scanTokens [readOnlyVar] ['''', ''--bogus''] 1 (defaultMetadata [readOnlyVar], False)"
    by (simp add: scanTokens_step scanToken_def)
  with two have "extractFlags '' --bogus'' dailyTasks
                   = Inr \<lparr>mapping = defaultMetadata [readOnlyVar]\<rparr>"
    by (simp add: extractFlags_def dailyTasks_def)
  with one two show ?thesis by simp
qed

text \<open>
  An option that passed \<open>Option.validate\<close> has no \<open>=\<close> in its long form, and a token
  matches a long form by equality: under a validated grammar no token that matches
  a long form contains \<open>=\<close>.
\<close>

lemma Index_char_absent: "c \<notin> set s \<Longrightarrow> Index s [c] = None"
  by (induction s) (auto simp: HasPrefix_def)

lemma validated_long_has_no_separator:
  assumes "Option_validate option = None"
  shows "Index (opt_Long option) ''='' = None"
proof (cases "opt_Long option = []")
  case True
  then show ?thesis by simp
next
  case False
  with assms have "\<not> ContainsAny (opt_Long option) ''[]{}()=''"
    by (simp add: Option_validate_def split: if_splits)
  then have "CHR ''='' \<notin> set (opt_Long option)"
    by (auto simp: ContainsAny_def list_ex_iff)
  then show ?thesis by (rule Index_char_absent)
qed

text \<open>
  On the sample grammar, which is a validated one, the token \<open>--read-only=x\<close> equals
  no short or long form: it is scanned as an unmatched token and sets nothing.
\<close>

lemma long_form_with_value_unmatched:
  "extractFlags ''--read-only=x'' dailyTasks = Inr \<lparr>mapping = defaultMetadata [readOnlyVar]\<rparr>"
  by (simp add: extractFlags_def scanTokens.simps scanToken_def dailyTasks_def readOnlyVar_def
      HasPrefix_def)






section \<open>The argument resolver\<close>

lemma findArgument_policy:
  "findArgument args remainder found =
     (case find (accepted remainder) args of
        Some arg \<Rightarrow> Some (arg, excise remainder (arg_Label arg))
      | None \<Rightarrow>
          (case find (\<lambda>arg. arg_Label arg = []) (rev args) of
             Some arg \<Rightarrow> Some (arg, remainder)
           | None \<Rightarrow> found))"
proof (induction args arbitrary: found)
  case Nil
  show ?case by simp
next
  case (Cons a args)
  show ?case
  proof (cases "arg_Label a = []")
    case True
    then have na: "\<not> accepted remainder a" by (simp add: accepted_def)
    with True show ?thesis
      by (simp add: Cons.IH find_snoc split: option.splits)
  next
    case False
    note nonempty = False
    show ?thesis
    proof (cases "Index remainder (arg_Label a)")
      case None
      with nonempty have "\<not> accepted remainder a" by (simp add: accepted_def)
      with nonempty None show ?thesis
        by (simp add: Cons.IH find_snoc split: option.splits)
    next
      case (Some index)
      from Index_Some_occurs [OF Some] have le: "index + length (arg_Label a) \<le> length remainder"
        by simp
      have acc: "accepted remainder a =
        (\<not> (drop (index + length (arg_Label a)) remainder \<noteq> []
             \<and> \<not> HasPrefix (drop (index + length (arg_Label a)) remainder) '' ''))"
        using nonempty Some le by (auto simp: accepted_def HasPrefix_drop_char)
      show ?thesis
      proof (cases "accepted remainder a")
        case True
        with acc nonempty Some show ?thesis
          by (auto simp: excise_def Let_def)
      next
        case False
        with acc nonempty Some show ?thesis
          by (auto simp: Cons.IH find_snoc Let_def split: option.splits)
      qed
    qed
  qed
qed

text \<open>
  Claim C4. The argument resolver follows the policy of the specification: a
  non-empty label found in the remainder is accepted only if the character after
  the occurrence is absent or a space; the first accepted argument ends the scan,
  with its label replaced by a single space to form the options text, whether or
  not an empty-label argument was met before it; and when no label is accepted, an
  empty-label argument is used with the entire remainder as options text.
\<close>

theorem extractArgument_policy:
  "extractArgument remainder command = resolveArgument remainder command"
  by (simp add: extractArgument_def resolveArgument_def findArgument_policy split: option.splits)

theorem extractArgument_policy_witness:
  "extractArgument ''daily-tasks -r'' showCommand = Inr (dailyTasks, ''  -r'')
   \<and> extractArgument ''daily-tasksx -r'' showCommand = Inr (noArgument, ''daily-tasksx -r'')
   \<and> extractArgument ''-r'' showCommand = Inr (noArgument, ''-r'')
   \<and> extractArgument ''-r'' (showCommand\<lparr>cmd_Arguments := [dailyTasks]\<rparr>)
       = Inl (NoValidArgument ''show'')"
  using extractArgument_policy [of "''daily-tasks -r''" showCommand]
        extractArgument_policy [of "''daily-tasksx -r''" showCommand]
        extractArgument_policy [of "''-r''" showCommand]
        extractArgument_policy [of "''-r''" "showCommand\<lparr>cmd_Arguments := [dailyTasks]\<rparr>"]
  by (simp add: resolveArgument_def accepted_def excise_def showCommand_def
      noArgument_def dailyTasks_def HasPrefix_def)

text \<open>
  Claim C10. There is no check before the occurrence: a non-empty label whose
  occurrence is preceded by a character other than a space is accepted all the
  same, provided the character after the occurrence is absent or a space and no
  earlier argument of the command is accepted.
\<close>

theorem no_leading_boundary_check:
  assumes "cmd_Arguments command = before @ argument # rest"
    and "\<forall>a \<in> set before. \<not> accepted remainder a"
    and "arg_Label argument \<noteq> []"
    and "Index remainder (arg_Label argument) = Some index"
    and "0 < index" and "remainder ! (index - 1) \<noteq> CHR '' ''"
    and "index + length (arg_Label argument) = length remainder
         \<or> (index + length (arg_Label argument) < length remainder
            \<and> remainder ! (index + length (arg_Label argument)) = CHR '' '')"
  shows "extractArgument remainder command =
           Inr (argument, take index remainder @ '' ''
                            @ drop (index + length (arg_Label argument)) remainder)"
proof -
  from assms(3,4,7) have "accepted remainder argument"
    by (simp add: accepted_def)
  from find_first [OF assms(2), of argument rest, OF this] assms(1)
  have "find (accepted remainder) (cmd_Arguments command) = Some argument" by simp
  with assms(4) show ?thesis
    by (simp add: extractArgument_def findArgument_policy excise_def)
qed

theorem no_leading_boundary_check_witness:
  "extractArgument ''xdaily-tasks -r'' showCommand = Inr (dailyTasks, ''x  -r'')"
proof -
  have "extractArgument ''xdaily-tasks -r'' showCommand =
           Inr (dailyTasks, take 1 ''xdaily-tasks -r'' @ '' ''
                            @ drop (1 + length (arg_Label dailyTasks)) ''xdaily-tasks -r'')"
    by (rule no_leading_boundary_check [where before = "[noArgument]" and rest = "[]"])
       (simp_all add: showCommand_def accepted_def noArgument_def dailyTasks_def HasPrefix_def)
  then show ?thesis by (simp add: dailyTasks_def)
qed


section \<open>The grammar validator rejects repeated names\<close>

lemma validateOptions_None_distinct:
  "validateOptions l opts labels shorts longs = None \<Longrightarrow>
     distinct (map opt_Label opts) \<and> opt_Label ` set opts \<inter> labels = {}
   \<and> distinct (filter (\<lambda>s. s \<noteq> []) (map opt_Short opts))
   \<and> (\<forall>opt \<in> set opts. opt_Short opt \<noteq> [] \<longrightarrow> opt_Short opt \<notin> shorts)
   \<and> distinct (filter (\<lambda>s. s \<noteq> []) (map opt_Long opts))
   \<and> (\<forall>opt \<in> set opts. opt_Long opt \<noteq> [] \<longrightarrow> opt_Long opt \<notin> longs)"
proof (induction opts arbitrary: labels shorts longs)
  case Nil
  show ?case by simp
next
  case (Cons opt opts)
  let ?labels = "insert (opt_Label opt) labels"
  let ?shorts = "if opt_Short opt \<noteq> [] then insert (opt_Short opt) shorts else shorts"
  let ?longs = "if opt_Long opt \<noteq> [] then insert (opt_Long opt) longs else longs"
  from Cons.prems have here: "opt_Label opt \<notin> labels"
      "opt_Short opt \<noteq> [] \<longrightarrow> opt_Short opt \<notin> shorts"
      "opt_Long opt \<noteq> [] \<longrightarrow> opt_Long opt \<notin> longs"
    and rest: "validateOptions l opts ?labels ?shorts ?longs = None"
    by (auto split: option.splits if_splits)
  from Cons.IH [OF rest] have ih:
    "distinct (map opt_Label opts)" "opt_Label ` set opts \<inter> ?labels = {}"
    "distinct (filter (\<lambda>s. s \<noteq> []) (map opt_Short opts))"
    "\<forall>opt \<in> set opts. opt_Short opt \<noteq> [] \<longrightarrow> opt_Short opt \<notin> ?shorts"
    "distinct (filter (\<lambda>s. s \<noteq> []) (map opt_Long opts))"
    "\<forall>opt \<in> set opts. opt_Long opt \<noteq> [] \<longrightarrow> opt_Long opt \<notin> ?longs"
    by blast+
  have "distinct (map opt_Label (opt # opts))" using ih(1,2) by auto
  moreover have "opt_Label ` set (opt # opts) \<inter> labels = {}" using ih(2) here(1) by auto
  moreover have "distinct (filter (\<lambda>s. s \<noteq> []) (map opt_Short (opt # opts)))"
    using ih(3,4) by (auto split: if_splits)
  moreover have "\<forall>opt \<in> set (opt # opts). opt_Short opt \<noteq> [] \<longrightarrow> opt_Short opt \<notin> shorts"
    using ih(4) here(2) by (auto split: if_splits)
  moreover have "distinct (filter (\<lambda>s. s \<noteq> []) (map opt_Long (opt # opts)))"
    using ih(5,6) by (auto split: if_splits)
  moreover have "\<forall>opt \<in> set (opt # opts). opt_Long opt \<noteq> [] \<longrightarrow> opt_Long opt \<notin> longs"
    using ih(6) here(3) by (auto split: if_splits)
  ultimately show ?case by blast
qed

lemma validateArguments_None_distinct:
  "validateArguments c args labels = None \<Longrightarrow>
     distinct (map arg_Label args) \<and> arg_Label ` set args \<inter> labels = {}"
proof (induction args arbitrary: labels)
  case Nil
  show ?case by simp
next
  case (Cons arg args)
  from Cons.prems have here: "arg_Label arg \<notin> labels"
    and rest: "validateArguments c args (insert (arg_Label arg) labels) = None"
    by (auto split: option.splits if_splits)
  from Cons.IH [OF rest] here show ?case by auto
qed

lemma filter_nonempty:
  "a \<in> set args \<Longrightarrow> P a \<Longrightarrow> 1 \<le> length (filter P args)"
  by (induction args) auto

lemma validateArguments_multiple:
  "validateArguments c args labels = Some (MultipleArgumentLabel c' l) \<Longrightarrow>
     (l \<in> labels \<and> (\<exists>a \<in> set args. arg_Label a = l))
     \<or> 2 \<le> length (filter (\<lambda>a. arg_Label a = l) args)"
proof (induction args arbitrary: labels)
  case Nil
  then show ?case by simp
next
  case (Cons arg args)
  show ?case
  proof (cases "arg_Label arg \<in> labels")
    case True
    with Cons.prems show ?thesis by (auto split: option.splits)
  next
    case False
    with Cons.prems have
      rest: "validateArguments c args (insert (arg_Label arg) labels)
               = Some (MultipleArgumentLabel c' l)"
      by (auto split: option.splits)
    from Cons.IH [OF rest] consider
      (here) "l = arg_Label arg" "\<exists>a \<in> set args. arg_Label a = l"
      | (before) "l \<in> labels" "\<exists>a \<in> set args. arg_Label a = l"
      | (twice) "2 \<le> length (filter (\<lambda>a. arg_Label a = l) args)"
      by auto
    then show ?thesis
    proof cases
      case here
      then obtain a where "a \<in> set args" "arg_Label a = l" by auto
      from filter_nonempty [of a args "\<lambda>a. arg_Label a = l", OF this]
      show ?thesis using here(1) by simp
    next
      case before
      then show ?thesis by auto
    next
      case twice
      then show ?thesis by auto
    qed
  qed
qed

lemma repeated_not_distinct_filter:
  assumes "i < j" and "j < length xs" and "xs ! i = xs ! j" and "P (xs ! i)"
  shows "\<not> distinct (filter P xs)"
proof -
  have split: "xs = take j xs @ xs ! j # drop (Suc j) xs"
    using assms(2) by (rule id_take_nth_drop)
  from assms(1,2) have "take j xs ! i = xs ! i" "i < length (take j xs)" by simp_all
  then have "xs ! i \<in> set (take j xs)" by (metis nth_mem)
  with assms(3,4) have "xs ! j \<in> set (filter P (take j xs))" by simp
  moreover have "filter P xs = filter P (take j xs) @ xs ! j # filter P (drop (Suc j) xs)"
    using assms(3,4) by (subst split) simp
  ultimately show ?thesis by simp
qed

lemma repeated_not_distinct:
  assumes "i < j" and "j < length xs" and "xs ! i = xs ! j"
  shows "\<not> distinct xs"
  using repeated_not_distinct_filter [of i j xs "\<lambda>_. True"] assms by simp

lemma distinct_filter_perm:
  "mset xs = mset ys \<Longrightarrow> distinct (filter P (map f xs)) = distinct (filter P (map f ys))"
proof -
  assume "mset xs = mset ys"
  then have "mset (filter P (map f xs)) = mset (filter P (map f ys))"
    by (metis mset_filter mset_map)
  then show ?thesis by (rule mset_eq_imp_distinct_iff)
qed

lemma distinct_map_perm:
  "mset xs = mset ys \<Longrightarrow> distinct (map f xs) = distinct (map f ys)"
  using distinct_filter_perm [of xs ys "\<lambda>_. True" f] by simp

lemma Argument_validate_None_options:
  "Argument_validate arg = None \<Longrightarrow>
     validateOptions (arg_Label arg) (arg_Options arg) {} {} {} = None"
  by (simp add: Argument_validate_def split: if_splits)

lemma Command_validate_None_arguments:
  "Command_validate cmd = None \<Longrightarrow>
     validateArguments (cmd_Label cmd) (cmd_Arguments cmd) {} = None"
  by (simp add: Command_validate_def split: if_splits)

text \<open>
  Claim C7. Take an argument whose option list has two options, at different
  positions, with the same label, the same short or the same long; a short or long
  that is empty is an absent one (the fields are optional, and the validator skips
  them with \<open>if opt.Short != ""\<close> and \<open>if opt.Long != ""\<close>), so the shared short or
  long is a non-empty one. Then \<open>Argument.validate\<close> returns an error for every
  ordering of that option list. Likewise \<open>Command.validate\<close> returns an error for
  every ordering of an argument list in which two arguments have the same label.
\<close>

theorem duplicates_rejected_in_any_order:
  "(mset options = mset (arg_Options arg) \<and> i < j \<and> j < length (arg_Options arg)
      \<and> (opt_Label (arg_Options arg ! i) = opt_Label (arg_Options arg ! j)
         \<or> (opt_Short (arg_Options arg ! i) \<noteq> []
            \<and> opt_Short (arg_Options arg ! i) = opt_Short (arg_Options arg ! j))
         \<or> (opt_Long (arg_Options arg ! i) \<noteq> []
            \<and> opt_Long (arg_Options arg ! i) = opt_Long (arg_Options arg ! j)))
      \<longrightarrow> Argument_validate (arg\<lparr>arg_Options := options\<rparr>) \<noteq> None)
   \<and> (mset arguments = mset (cmd_Arguments cmd) \<and> k < l \<and> l < length (cmd_Arguments cmd)
      \<and> arg_Label (cmd_Arguments cmd ! k) = arg_Label (cmd_Arguments cmd ! l)
      \<longrightarrow> Command_validate (cmd\<lparr>cmd_Arguments := arguments\<rparr>) \<noteq> None)"
proof (intro conjI impI; elim conjE)
  let ?os = "arg_Options arg"
  assume perm: "mset options = mset ?os" and ij: "i < j" "j < length ?os"
    and dup: "opt_Label (?os ! i) = opt_Label (?os ! j)
         \<or> (opt_Short (?os ! i) \<noteq> [] \<and> opt_Short (?os ! i) = opt_Short (?os ! j))
         \<or> (opt_Long (?os ! i) \<noteq> [] \<and> opt_Long (?os ! i) = opt_Long (?os ! j))"
  from ij have len: "i < length ?os" by simp
  from dup have "\<not> distinct (map opt_Label ?os)
      \<or> \<not> distinct (filter (\<lambda>s. s \<noteq> []) (map opt_Short ?os))
      \<or> \<not> distinct (filter (\<lambda>s. s \<noteq> []) (map opt_Long ?os))"
  proof (elim disjE conjE)
    assume "opt_Label (?os ! i) = opt_Label (?os ! j)"
    with ij len have "\<not> distinct (map opt_Label ?os)"
      by (intro repeated_not_distinct [of i j]) simp_all
    then show ?thesis by simp
  next
    assume "opt_Short (?os ! i) \<noteq> []" "opt_Short (?os ! i) = opt_Short (?os ! j)"
    with ij len have "\<not> distinct (filter (\<lambda>s. s \<noteq> []) (map opt_Short ?os))"
      by (intro repeated_not_distinct_filter [of i j]) simp_all
    then show ?thesis by simp
  next
    assume "opt_Long (?os ! i) \<noteq> []" "opt_Long (?os ! i) = opt_Long (?os ! j)"
    with ij len have "\<not> distinct (filter (\<lambda>s. s \<noteq> []) (map opt_Long ?os))"
      by (intro repeated_not_distinct_filter [of i j]) simp_all
    then show ?thesis by simp
  qed
  with perm have bad: "\<not> distinct (map opt_Label options)
      \<or> \<not> distinct (filter (\<lambda>s. s \<noteq> []) (map opt_Short options))
      \<or> \<not> distinct (filter (\<lambda>s. s \<noteq> []) (map opt_Long options))"
    by (simp add: distinct_map_perm [OF perm] distinct_filter_perm [OF perm])
  show "Argument_validate (arg\<lparr>arg_Options := options\<rparr>) \<noteq> None"
  proof
    assume "Argument_validate (arg\<lparr>arg_Options := options\<rparr>) = None"
    from validateOptions_None_distinct [OF Argument_validate_None_options [OF this]] bad
    show False by simp
  qed
next
  let ?as = "cmd_Arguments cmd"
  assume perm: "mset arguments = mset ?as" and kl: "k < l" "l < length ?as"
    and dup: "arg_Label (?as ! k) = arg_Label (?as ! l)"
  from kl dup have "\<not> distinct (map arg_Label ?as)"
    by (intro repeated_not_distinct [of k l]) simp_all
  with perm have bad: "\<not> distinct (map arg_Label arguments)"
    by (simp add: distinct_map_perm [OF perm])
  show "Command_validate (cmd\<lparr>cmd_Arguments := arguments\<rparr>) \<noteq> None"
  proof
    assume "Command_validate (cmd\<lparr>cmd_Arguments := arguments\<rparr>) = None"
    from validateArguments_None_distinct [OF Command_validate_None_arguments [OF this]] bad
    show False by simp
  qed
qed

theorem duplicates_rejected_in_any_order_witness:
  "Argument_validate
     (dailyTasks\<lparr>arg_Options :=
        [\<lparr>opt_Label = ''other'', opt_Short = ''-r'', opt_Long = ''--other'',
          opt_Variable = None, opt_HelpMsg = []\<rparr>, readOnlyVar]\<rparr>) \<noteq> None
   \<and> Command_validate (showCommand\<lparr>cmd_Arguments := [dailyTasks, noArgument, dailyTasks]\<rparr>)
       \<noteq> None"
proof -
  let ?other = "\<lparr>opt_Label = ''other'', opt_Short = ''-r'', opt_Long = ''--other'',
          opt_Variable = None, opt_HelpMsg = []\<rparr>"
  have "mset [dailyTasks, noArgument, dailyTasks] = mset [noArgument, dailyTasks, dailyTasks]"
    by simp
  with duplicates_rejected_in_any_order
    [where arg = "dailyTasks\<lparr>arg_Options := [readOnlyVar, ?other]\<rparr>"
       and options = "[?other, readOnlyVar]" and i = 0 and j = 1
       and cmd = "showCommand\<lparr>cmd_Arguments := [noArgument, dailyTasks, dailyTasks]\<rparr>"
       and arguments = "[dailyTasks, noArgument, dailyTasks]" and k = 1 and l = 2]
  show ?thesis by (simp add: readOnlyVar_def)
qed

lemma distinct_map_filter_le1:
  "distinct (map f xs) \<Longrightarrow> length (filter (\<lambda>a. f a = l) xs) \<le> 1"
proof (induction xs)
  case Nil
  show ?case by simp
next
  case (Cons x xs)
  show ?case
  proof (cases "f x = l")
    case True
    with Cons.prems have "\<forall>a \<in> set xs. f a \<noteq> l" by (auto simp: image_iff)
    then have "filter (\<lambda>a. f a = l) xs = []" by (simp add: filter_empty_conv)
    with True show ?thesis by simp
  next
    case False
    with Cons show ?thesis by simp
  qed
qed

text \<open>
  Claim C8. A command whose argument list has two or more arguments with the empty
  label is rejected by \<open>Command.validate\<close>; for a command with at most one such
  argument the validator never returns the error of a repeated empty label.
\<close>

theorem empty_label_arguments:
  "(2 \<le> length (filter (\<lambda>arg. arg_Label arg = []) (cmd_Arguments cmd))
      \<longrightarrow> Command_validate cmd \<noteq> None)
   \<and> (length (filter (\<lambda>arg. arg_Label arg = []) (cmd_Arguments cmd)) \<le> 1
      \<longrightarrow> Command_validate cmd \<noteq> Some (MultipleArgumentLabel (cmd_Label cmd) []))"
proof (intro conjI impI)
  assume two: "2 \<le> length (filter (\<lambda>arg. arg_Label arg = []) (cmd_Arguments cmd))"
  show "Command_validate cmd \<noteq> None"
  proof
    assume "Command_validate cmd = None"
    from validateArguments_None_distinct [OF Command_validate_None_arguments [OF this]]
    have "distinct (map arg_Label (cmd_Arguments cmd))" by simp
    from distinct_map_filter_le1 [OF this, of "[]"] two show False by simp
  qed
next
  assume one: "length (filter (\<lambda>arg. arg_Label arg = []) (cmd_Arguments cmd)) \<le> 1"
  show "Command_validate cmd \<noteq> Some (MultipleArgumentLabel (cmd_Label cmd) [])"
  proof
    assume "Command_validate cmd = Some (MultipleArgumentLabel (cmd_Label cmd) [])"
    then have "validateArguments (cmd_Label cmd) (cmd_Arguments cmd) {}
                 = Some (MultipleArgumentLabel (cmd_Label cmd) [])"
      by (simp add: Command_validate_def split: if_splits)
    from validateArguments_multiple [OF this] one show False by simp
  qed
qed

theorem empty_label_arguments_witness:
  "Command_validate (showCommand\<lparr>cmd_Arguments := [noArgument, dailyTasks, noArgument]\<rparr>)
     \<noteq> None
   \<and> Command_validate showCommand \<noteq> Some (MultipleArgumentLabel ''show'' [])
   \<and> Command_validate showCommand = None"
  using empty_label_arguments
          [of "showCommand\<lparr>cmd_Arguments := [noArgument, dailyTasks, noArgument]\<rparr>"]
        empty_label_arguments [of showCommand] showCommand_valid
  by (simp add: showCommand_def noArgument_def dailyTasks_def)


section \<open>Help requests\<close>

lemma LoadConfig_Inr:
  "LoadConfig yaml = Inr cfg \<Longrightarrow>
     cfg_Commands cfg = map generateFunctions (cfg_Commands yaml)
   \<and> cfg_HelpCmd cfg = cfg_HelpCmd yaml \<and> cfg_ExitCmd cfg = cfg_ExitCmd yaml"
  by (auto simp: LoadConfig_def Let_def split: if_splits option.splits)

lemma find_generateFunctions:
  "find (\<lambda>cmd. cmd_Label cmd = l) (map generateFunctions commands)
     = map_option generateFunctions (find (\<lambda>cmd. cmd_Label cmd = l) commands)"
  by (induction commands) (simp_all add: generateFunctions_def)

lemma sampleApp_loaded: "LoadConfig sampleYaml = Inr (config sampleApp)"
  by (simp add: sampleApp_def sample_loaded)

lemma helpCmd_showCommand:
  "helpCmd showCommand =
     nl @ ''Usage: show'' @ nl @ nl
     @ ''show [daily-tasks]'' @ nl
     @ tab @ ''(no arguments) Show will show the stuff you want'' @ nl
     @ tab @ ''daily-tasks    Show will show the other stuff you want'' @ nl @ nl
     @ ''show (no arguments) -r'' @ nl
     @ tab @ ''-r --read-only Short desc'' @ nl @ nl
     @ ''show daily-tasks -r var4'' @ nl
     @ tab @ ''-r --read-only Short desc'' @ nl @ nl"
  by code_simp

text \<open>
  Claim C1, as the code has it. For a grammar that \<open>LoadConfig\<close> accepts, with
  \<open>helpCmd\<close> \<open>help\<close> and a command \<open>show\<close>, the line \<open>show help\<close> is not dispatched:
  it returns the help text of the command \<open>show\<close>, which \<open>helpCmd\<close> renders from the
  command and all its arguments. Nothing remains after the command label once the
  help command is removed, and \<open>getHelpOutput\<close> then answers with \<open>command.help\<close>.
\<close>

theorem show_help_gives_command_help:
  assumes "LoadConfig yaml = Inr (config app)"
    and "cfg_HelpCmd yaml = ''help''" and "cfg_ExitCmd yaml \<noteq> ''show help''"
    and "find (\<lambda>cmd. cmd_Label cmd = ''show'') (cfg_Commands yaml) = Some command"
  shows "getOutput app ''show help'' = (app, helpCmd command)"
proof -
  from LoadConfig_Inr [OF assms(1)] assms(2,3) have
    cmds: "cfg_Commands (config app) = map generateFunctions (cfg_Commands yaml)"
    and helpcmd: "cfg_HelpCmd (config app) = ''help''"
    and exitcmd: "cfg_ExitCmd (config app) \<noteq> ''show help''"
    by simp_all
  have found: "extractCommand app ''show'' = Inr (generateFunctions command, [])"
    by (simp add: extractCommand_def cmds find_generateFunctions assms(4) HasPrefix_def)
  have "cmd_help (generateFunctions command) emptyFlags = helpCmd command"
    by (simp add: generateFunctions_def createHelp_def)
  with found have "getHelpOutput app ''show'' = helpCmd command"
    by (simp add: getHelpOutput_def)
  moreover have "Trim ''show help'' whitespaceCharacters = ''show help''"
    by (simp add: string_defs)
  moreover have "TrimRight ''show '' whitespaceCharacters = ''show''"
    by (simp add: string_defs)
  ultimately show ?thesis using helpcmd exitcmd
    by (simp add: getOutput_def HasSuffix_def)
qed

theorem show_help_gives_command_help_witness:
  "getOutput sampleApp ''show help'' = (sampleApp, helpCmd showCommand)
   \<and> snd (getOutput sampleApp ''show help'') =
       nl @ ''Usage: show'' @ nl @ nl
       @ ''show [daily-tasks]'' @ nl
       @ tab @ ''(no arguments) Show will show the stuff you want'' @ nl
       @ tab @ ''daily-tasks    Show will show the other stuff you want'' @ nl @ nl
       @ ''show (no arguments) -r'' @ nl
       @ tab @ ''-r --read-only Short desc'' @ nl @ nl
       @ ''show daily-tasks -r var4'' @ nl
       @ tab @ ''-r --read-only Short desc'' @ nl @ nl"
proof -
  from show_help_gives_command_help [OF sampleApp_loaded, of showCommand]
  have "getOutput sampleApp ''show help'' = (sampleApp, helpCmd showCommand)"
    by (simp add: sampleYaml_def showCommand_def)
  then show ?thesis by (simp add: helpCmd_showCommand)
qed

text \<open>
  Claim C1, as the specification words it, fails on the sample grammar: the first
  argument of \<open>show\<close> is the empty-label argument, its help function returns
  \<open>helpArg\<close> of that argument, and the output of \<open>show help\<close> is a different text.
\<close>

theorem show_help_is_not_argument_help:
  "arg_Label (hd (cmd_Arguments (hd (cfg_Commands (config sampleApp))))) = []
   \<and> arg_help (hd (cmd_Arguments (hd (cfg_Commands (config sampleApp))))) emptyFlags
       = helpArg showCommand noArgument
   \<and> snd (getOutput sampleApp ''show help'') \<noteq> helpArg showCommand noArgument"
proof -
  have "snd (getOutput sampleApp ''show help'') = helpCmd showCommand"
    by (simp add: dispatch_defs string_defs createHelp_def)
  moreover have "helpCmd showCommand \<noteq> helpArg showCommand noArgument"
    by (simp add: helpCmd_def helpArg_def showCommand_def nl_def)
  ultimately show ?thesis
    by (simp add: sampleApp_commands show_Arguments createArgHelp_def noArgument_def)
qed


section \<open>Bare tokens after a short-form value\<close>

text \<open>
  \<open>expectingValue\<close> is declared before the loop and only ever assigned \<open>true\<close>:
  once a short-form option with a variable has been scanned it stays true, and
  every later token that does not start with \<open>-\<close> is passed over.
\<close>

lemma expectingValue_is_kept:
  "scanToken options optionsStrings i (metadata, True) = Inr (metadata', expectingValue)
     \<Longrightarrow> expectingValue"
proof -
  have "matchOptions os optionsStrings i s (metadata, True) = Inr (metadata', expectingValue)
          \<Longrightarrow> expectingValue" for os s
    by (induction os) (auto split: if_splits option.splits)
  then show "scanToken options optionsStrings i (metadata, True) = Inr (metadata', expectingValue)
     \<Longrightarrow> expectingValue"
    by (auto simp: scanToken_def Let_def split: if_splits)
qed

lemma bare_token_after_value_accepted:
  "optionsStrings ! i = s \<Longrightarrow> \<not> HasPrefix s ''-'' \<Longrightarrow>
     scanToken options optionsStrings i (metadata, True) = Inr (metadata, True)"
  by (simp add: scanToken_def)

text \<open>
  Claim C2 says that only the one token consumed as the value is exempt from the
  \<open>invalid text\<close> error. On the line \<open>show daily-tasks -r extra more\<close> of the sample
  grammar the token \<open>more\<close> follows the consumed value \<open>extra\<close>; the resolver
  returns the flags without an error and the handler of the argument runs.
\<close>

theorem later_bare_token_accepted:
  "extractFlags ''  -r extra more'' dailyTasks =
     Inr \<lparr>mapping = [''readOnly'' \<mapsto> \<lparr>isset = True, hasVar = True, variable = ''extra''\<rparr>]\<rparr>
   \<and> snd (getOutput sampleApp ''show daily-tasks -r extra more'')
       = quoted ''MyFunc2'' @ '' is not configured'' @ nl"
proof -
  have "extractFlags ''  -r extra more'' dailyTasks =
     Inr \<lparr>mapping = [''readOnly'' \<mapsto> \<lparr>isset = True, hasVar = True, variable = ''extra''\<rparr>]\<rparr>"
    by (simp add: flag_defs dailyTasks_def readOnlyVar_def var4_def HasPrefix_def)
  moreover have "snd (getOutput sampleApp ''show daily-tasks -r extra more'')
       = quoted ''MyFunc2'' @ '' is not configured'' @ nl"
    by (simp add: dispatch_defs flag_defs string_defs createExecutable_def
        noArgument_def dailyTasks_def readOnlyVar_def readOnlyPlain_def var4_def)
  ultimately show ?thesis by simp
qed

end
